theory Spec2Isabelle
  imports Main "HOL-Library.Sublist" "HOL-Library.AList"
begin

section \<open>File management service: extension resolution and download\<close>

text \<open>
  A shallow embedding of \<^verbatim>\<open>services/file_management.py\<close>: the two functions
  \<^verbatim>\<open>get_extension_from_url\<close> and \<^verbatim>\<open>download_file\<close>, together with the parts
  of the Python standard library and of \<^verbatim>\<open>requests\<close> whose behaviour decides
  what the two functions return (\<^verbatim>\<open>urllib.parse.urlparse\<close>,
  \<^verbatim>\<open>os.path.splitext\<close>, \<^verbatim>\<open>os.path.join\<close>, \<^verbatim>\<open>str.replace\<close>,
  \<^verbatim>\<open>mimetypes.guess_extension\<close>, \<^verbatim>\<open>Response.raise_for_status\<close>).

  Strings are character lists. URLs are ASCII text; \<^verbatim>\<open>str.lower\<close> is modelled on
  the letters A to Z and leaves every other character alone.
\<close>

subsection \<open>Strings\<close>

definition is_upper :: "char \<Rightarrow> bool" where
  "is_upper c = (65 \<le> (of_char c :: nat) \<and> (of_char c :: nat) \<le> 90)"

definition is_ascii :: "char \<Rightarrow> bool" where
  "is_ascii c = ((of_char c :: nat) < 128)"

definition is_ascii_alpha :: "char \<Rightarrow> bool" where
  "is_ascii_alpha c =
     ((65 \<le> (of_char c :: nat) \<and> (of_char c :: nat) \<le> 90) \<or>
      (97 \<le> (of_char c :: nat) \<and> (of_char c :: nat) \<le> 122))"

definition is_digit :: "char \<Rightarrow> bool" where
  "is_digit c = (48 \<le> (of_char c :: nat) \<and> (of_char c :: nat) \<le> 57)"

definition lower_char :: "char \<Rightarrow> char" where
  "lower_char c = (if is_upper c then char_of (of_char c + (32::nat)) else c)"

text \<open>\<^verbatim>\<open>str.lower()\<close>\<close>

definition str_lower :: "string \<Rightarrow> string" where
  "str_lower s = map lower_char s"


text \<open>\<^verbatim>\<open>s.rfind(c)\<close>: the index of the last occurrence of a character, or -1.\<close>

fun rfind_from :: "char \<Rightarrow> string \<Rightarrow> int \<Rightarrow> int \<Rightarrow> int" where
  "rfind_from c [] i found = found"
| "rfind_from c (x # xs) i found = rfind_from c xs (i + 1) (if x = c then i else found)"

definition rfind :: "string \<Rightarrow> char \<Rightarrow> int" where
  "rfind s c = rfind_from c s 0 (- 1)"

text \<open>
  \<^verbatim>\<open>s.replace(old, new, 1)\<close>: the leftmost occurrence of \<open>old\<close> is replaced, and
  nothing else; an empty \<open>old\<close> occurs at position 0.
\<close>

fun replace_first :: "string \<Rightarrow> string \<Rightarrow> string \<Rightarrow> string" where
  "replace_first old new [] = (if old = [] then new else [])"
| "replace_first old new (c # cs) =
     (if prefix old (c # cs) then new @ drop (length old) (c # cs)
      else c # replace_first old new cs)"

subsection \<open>\<^verbatim>\<open>os.path.splitext\<close> and \<^verbatim>\<open>os.path.join\<close> (posixpath)\<close>

text \<open>
  \<^verbatim>\<open>
  def _splitext(p, sep, altsep, extsep):
      sepIndex = p.rfind(sep)
      dotIndex = p.rfind(extsep)
      if dotIndex > sepIndex:
          # skip all leading dots
          filenameIndex = sepIndex + 1
          while filenameIndex < dotIndex:
              if p[filenameIndex:filenameIndex+1] != extsep:
                  return p[:dotIndex], p[dotIndex:]
              filenameIndex += 1
      return p, p[:0]
  \<close>
  The loop is \<open>skip_leading_dots\<close>: it answers whether the loop leaves through its
  \<^verbatim>\<open>return\<close>, that is, whether a character other than the dot stands between the
  last separator and the last dot.
\<close>

function skip_leading_dots :: "string \<Rightarrow> nat \<Rightarrow> nat \<Rightarrow> bool" where
  "skip_leading_dots p filenameIndex dotIndex =
     (if filenameIndex < dotIndex
      then (if p ! filenameIndex \<noteq> CHR ''.'' then True
            else skip_leading_dots p (Suc filenameIndex) dotIndex)
      else False)"
  by pat_completeness auto
termination
  by (relation "measure (\<lambda>(p, filenameIndex, dotIndex). dotIndex - filenameIndex)") auto

declare skip_leading_dots.simps [simp del]

definition splitext :: "string \<Rightarrow> string \<times> string" where
  "splitext p =
     (let sepIndex = rfind p (CHR ''/'');
          dotIndex = rfind p (CHR ''.'')
      in if dotIndex > sepIndex \<and> skip_leading_dots p (nat (sepIndex + 1)) (nat dotIndex)
         then (take (nat dotIndex) p, drop (nat dotIndex) p)
         else (p, []))"

text \<open>
  \<^verbatim>\<open>posixpath.join(a, b)\<close> for two components: an absolute \<open>b\<close> replaces \<open>a\<close>; otherwise
  the two are joined with one separator unless \<open>a\<close> is empty or already ends in one.
\<close>

definition path_join :: "string \<Rightarrow> string \<Rightarrow> string" where
  "path_join a b =
     (if b \<noteq> [] \<and> hd b = CHR ''/'' then b
      else if a = [] \<or> last a = CHR ''/'' then a @ b
      else a @ ''/'' @ b)"

subsection \<open>Errors\<close>

text \<open>
  The exceptions that the functions raise or see raised, all of them subclasses of
  \<^verbatim>\<open>Exception\<close>: \<^verbatim>\<open>ValueError\<close> with its message, the \<^verbatim>\<open>HTTPError\<close> of
  \<^verbatim>\<open>raise_for_status\<close> with the status code, the other exceptions of \<^verbatim>\<open>requests\<close>
  (timeout, connection failure), and \<^verbatim>\<open>OSError\<close>.
\<close>

datatype py_error =
    ValueError string
  | HTTPError nat
  | RequestException string
  | OSError string

subsection \<open>\<^verbatim>\<open>urllib.parse.urlparse\<close>: the path component\<close>

text \<open>
  What the standard library is given from outside the repository: the media type table
  of \<^verbatim>\<open>mimetypes\<close> (\<^verbatim>\<open>types_map_inv\<close>: the extensions known for a media type,
  the preferred one first), and the two host validators of \<^verbatim>\<open>urllib.parse\<close> that
  depend on the \<^verbatim>\<open>ipaddress\<close> and \<^verbatim>\<open>unicodedata\<close> modules
  (\<^verbatim>\<open>_check_bracketed_host\<close>, and the NFKC check of \<^verbatim>\<open>_checknetloc\<close> on a
  host that is not ASCII); each validator answers with the message of the
  \<^verbatim>\<open>ValueError\<close> it raises, if it raises.
\<close>

record stdlib =
  types_map_inv :: "string \<Rightarrow> string list"
  check_bracketed_host :: "string \<Rightarrow> string option"
  check_nfkc :: "string \<Rightarrow> string option"

definition scheme_chars :: "char \<Rightarrow> bool" where
  "scheme_chars c = (is_ascii_alpha c \<or> is_digit c \<or> c \<in> set ''+-.'')"

definition uses_params :: "string list" where
  "uses_params = ['''', ''ftp'', ''hdl'', ''prospero'', ''http'', ''imap'', ''https'',
                  ''shttp'', ''rtsp'', ''rtsps'', ''rtspu'', ''sip'', ''sips'', ''mms'',
                  ''sftp'', ''tel'']"

text \<open>
  \<^verbatim>\<open>url.lstrip(_WHATWG_C0_CONTROL_OR_SPACE)\<close>, then the removal of tab, carriage
  return and line feed everywhere.
\<close>

definition strip_url :: "string \<Rightarrow> string" where
  "strip_url url =
     filter (\<lambda>c. (of_char c :: nat) \<notin> {9, 10, 13})
       (dropWhile (\<lambda>c. (of_char c :: nat) \<le> 32) url)"

text \<open>
  The scheme is split off when the text before the first colon is not empty, starts
  with an ASCII letter and consists of scheme characters only.
\<close>

definition split_scheme :: "string \<Rightarrow> string \<times> string" where
  "split_scheme url =
     (let pre = takeWhile (\<lambda>c. c \<noteq> CHR '':'') url
      in if CHR '':'' \<in> set url \<and> pre \<noteq> [] \<and> is_ascii_alpha (hd pre) \<and> list_all scheme_chars pre
         then (str_lower pre, drop (length pre + 1) url)
         else ('''', url))"

text \<open>\<^verbatim>\<open>_splitnetloc(url, 2)\<close>, when the URL starts with two slashes.\<close>

definition is_netloc_delim :: "char \<Rightarrow> bool" where
  "is_netloc_delim c = (c = CHR ''/'' \<or> c = CHR ''?'' \<or> c = CHR ''#'')"

definition split_netloc :: "string \<Rightarrow> string \<times> string" where
  "split_netloc url =
     (if take 2 url = ''//''
      then (takeWhile (\<lambda>c. \<not> is_netloc_delim c) (drop 2 url),
            dropWhile (\<lambda>c. \<not> is_netloc_delim c) (drop 2 url))
      else ('''', url))"

text \<open>\<^verbatim>\<open>netloc.partition('[')[2].partition(']')[0]\<close>\<close>

definition bracketed_host :: "string \<Rightarrow> string" where
  "bracketed_host netloc =
     takeWhile (\<lambda>c. c \<noteq> CHR '']'') (drop 1 (dropWhile (\<lambda>c. c \<noteq> CHR ''['') netloc))"

definition check_netloc_brackets :: "stdlib \<Rightarrow> string \<Rightarrow> py_error option" where
  "check_netloc_brackets L netloc =
     (if (CHR ''['' \<in> set netloc \<and> CHR '']'' \<notin> set netloc) \<or>
         (CHR '']'' \<in> set netloc \<and> CHR ''['' \<notin> set netloc)
      then Some (ValueError ''Invalid IPv6 URL'')
      else if CHR ''['' \<in> set netloc \<and> CHR '']'' \<in> set netloc
      then map_option ValueError (check_bracketed_host L (bracketed_host netloc))
      else None)"

definition checknetloc :: "stdlib \<Rightarrow> string \<Rightarrow> py_error option" where
  "checknetloc L netloc =
     (if netloc = [] \<or> list_all is_ascii netloc then None
      else map_option ValueError (check_nfkc L netloc))"

text \<open>
  \<^verbatim>\<open>
  def _splitparams(url):
      if '/' in url:
          i = url.find(';', url.rfind('/'))
          if i < 0:
              return url, ''
      else:
          i = url.find(';')
      return url[:i], url[i+1:]
  \<close>
  Only the first component is kept. It is called when the URL contains a semicolon.
\<close>

definition splitparams :: "string \<Rightarrow> string" where
  "splitparams url =
     (if CHR ''/'' \<in> set url
      then take (nat (rfind url (CHR ''/''))) url @
           takeWhile (\<lambda>c. c \<noteq> CHR '';'') (drop (nat (rfind url (CHR ''/''))) url)
      else takeWhile (\<lambda>c. c \<noteq> CHR '';'') url)"

text \<open>
  \<^verbatim>\<open>urlparse(url).path\<close>, or the \<^verbatim>\<open>ValueError\<close> that \<^verbatim>\<open>urlsplit\<close> raises: the
  fragment is cut at the first \<open>#\<close>, the query at the first \<open>?\<close>, and for the schemes
  of \<open>uses_params\<close> the parameters of the last segment at its first \<open>;\<close>.
\<close>

definition urlparse_path :: "stdlib \<Rightarrow> string \<Rightarrow> py_error + string" where
  "urlparse_path L url0 =
     (let (scheme, url1) = split_scheme (strip_url url0);
          (netloc, url2) = split_netloc url1
      in case check_netloc_brackets L netloc of
           Some e \<Rightarrow> Inl e
         | None \<Rightarrow>
             (let url3 = takeWhile (\<lambda>c. c \<noteq> CHR ''#'') url2;
                  url4 = takeWhile (\<lambda>c. c \<noteq> CHR ''?'') url3
              in case checknetloc L netloc of
                   Some e \<Rightarrow> Inl e
                 | None \<Rightarrow>
                     Inr (if scheme \<in> set uses_params \<and> CHR '';'' \<in> set url4
                          then splitparams url4 else url4)))"

subsection \<open>\<^verbatim>\<open>mimetypes.guess_extension\<close>\<close>

text \<open>
  \<^verbatim>\<open>
  def guess_extension(self, type, strict=True):
      extensions = self.guess_all_extensions(type, strict)   # looks up type.lower()
      if not extensions:
          return None
      return extensions[0]
  \<close>
\<close>

definition guess_extension :: "stdlib \<Rightarrow> string \<Rightarrow> string option" where
  "guess_extension L type =
     (case types_map_inv L (str_lower type) of [] \<Rightarrow> None | ext # _ \<Rightarrow> Some ext)"

subsection \<open>The world: environment, file system, objects, and what is outside\<close>

text \<open>
  A Python dictionary from strings to strings: its items in insertion order, no key
  twice. \<open>map_of\<close> is the lookup.
\<close>

type_synonym dict = "(string \<times> string) list"

definition well_formed_dict :: "dict \<Rightarrow> bool" where
  "well_formed_dict d = distinct (map fst d)"

text \<open>
  A \<^verbatim>\<open>requests\<close> response: the status code, the headers (looked up by their
  lower-case name, as the case-insensitive dictionary of \<^verbatim>\<open>requests\<close> does) and
  what \<^verbatim>\<open>iter_content\<close> yields: chunks, or an error raised in the middle of the
  stream.
\<close>

record response =
  status_code :: nat
  resp_headers :: dict
  body :: "(py_error + string) list"

datatype event =
    Makedirs string
  | Head string dict
  | Get string dict
  | Open string
  | Write string string
  | Close string
  | Remove string

text \<open>
  The state the two functions read and change: the process environment, the directories
  and regular files of the file system (by path), the dictionaries that live on the
  Python heap (a reference is an index; a dictionary display allocates at the end), and
  the calls made to the operating system and the network so far, oldest first.
\<close>

record world =
  environ :: "string \<rightharpoonup> string"
  dirs :: "string set"
  files :: "string \<rightharpoonup> string"
  heap :: "dict list"
  trace :: "event list"

text \<open>
  What the functions cannot decide: the random identifier, the answers of the remote
  server (a response, or the exception that \<^verbatim>\<open>requests\<close> raises) and the failures
  of the operating system (\<open>None\<close>: the call succeeds).
\<close>

record outside =
  uuid4 :: string
  http_head :: "string \<Rightarrow> dict \<Rightarrow> py_error + response"
  http_get :: "string \<Rightarrow> dict \<Rightarrow> py_error + response"
  makedirs_fault :: "string \<Rightarrow> py_error option"
  open_fault :: "string \<Rightarrow> py_error option"
  write_fault :: "string \<Rightarrow> string \<Rightarrow> string \<Rightarrow> py_error option"
  close_fault :: "string \<Rightarrow> py_error option"

definition log :: "event \<Rightarrow> world \<Rightarrow> world" where
  "log e w = w\<lparr>trace := trace w @ [e]\<rparr>"

text \<open>A dictionary display \<^verbatim>\<open>{...}\<close>: a new object, and the reference to it.\<close>

definition new_dict :: "dict \<Rightarrow> world \<Rightarrow> nat \<times> world" where
  "new_dict d w = (length (heap w), w\<lparr>heap := heap w @ [d]\<rparr>)"

text \<open>
  \<^verbatim>\<open>d.update(other)\<close> on values: each item of \<open>other\<close>, in order, replaces the value of
  its key in place or is added at the end.
\<close>

definition update_items :: "dict \<Rightarrow> dict \<Rightarrow> dict" where
  "update_items d other = fold (\<lambda>(k, v). AList.update k v) other d"

text \<open>\<^verbatim>\<open>a.update(b)\<close> on references: only the object at \<open>a\<close> changes.\<close>

definition dict_update :: "nat \<Rightarrow> nat \<Rightarrow> world \<Rightarrow> world" where
  "dict_update a b w = w\<lparr>heap := (heap w)[a := update_items (heap w ! a) (heap w ! b)]\<rparr>"

text \<open>\<^verbatim>\<open>os.makedirs(path, exist_ok=True)\<close>\<close>

definition os_makedirs :: "outside \<Rightarrow> string \<Rightarrow> world \<Rightarrow> (py_error + unit) \<times> world" where
  "os_makedirs out path w =
     (case makedirs_fault out path of
        Some e \<Rightarrow> (Inl e, log (Makedirs path) w)
      | None \<Rightarrow> (Inr (), (log (Makedirs path) w)\<lparr>dirs := insert path (dirs w)\<rparr>))"

text \<open>\<^verbatim>\<open>open(path, 'wb')\<close>: a directory cannot be opened; a file is created or truncated.\<close>

definition py_open :: "outside \<Rightarrow> string \<Rightarrow> world \<Rightarrow> (py_error + unit) \<times> world" where
  "py_open out path w =
     (if path \<in> dirs w then (Inl (OSError ''IsADirectoryError''), log (Open path) w)
      else case open_fault out path of
             Some e \<Rightarrow> (Inl e, log (Open path) w)
           | None \<Rightarrow> (Inr (), (log (Open path) w)\<lparr>files := (files w)(path \<mapsto> [])\<rparr>))"

text \<open>\<^verbatim>\<open>f.write(chunk)\<close> on the file opened at \<open>path\<close>.\<close>

definition file_write :: "outside \<Rightarrow> string \<Rightarrow> string \<Rightarrow> world \<Rightarrow> (py_error + unit) \<times> world" where
  "file_write out path chunk w =
     (let content = (case files w path of None \<Rightarrow> [] | Some c \<Rightarrow> c)
      in case write_fault out path content chunk of
           Some e \<Rightarrow> (Inl e, log (Write path chunk) w)
         | None \<Rightarrow>
             (Inr (), (log (Write path chunk) w)\<lparr>files := (files w)(path \<mapsto> content @ chunk)\<rparr>))"

text \<open>Leaving the \<^verbatim>\<open>with\<close> block closes the file, on every path.\<close>

definition file_close :: "outside \<Rightarrow> string \<Rightarrow> world \<Rightarrow> (py_error + unit) \<times> world" where
  "file_close out path w =
     (case close_fault out path of
        Some e \<Rightarrow> (Inl e, log (Close path) w)
      | None \<Rightarrow> (Inr (), log (Close path) w))"

definition os_path_exists :: "string \<Rightarrow> world \<Rightarrow> bool" where
  "os_path_exists path w = (path \<in> dom (files w) \<or> path \<in> dirs w)"

text \<open>\<^verbatim>\<open>os.remove(path)\<close>: removes a regular file, and raises on anything else.\<close>

definition os_remove :: "string \<Rightarrow> world \<Rightarrow> (py_error + unit) \<times> world" where
  "os_remove path w =
     (if path \<in> dom (files w)
      then (Inr (), (log (Remove path) w)\<lparr>files := (files w)(path := None)\<rparr>)
      else if path \<in> dirs w then (Inl (OSError ''IsADirectoryError''), log (Remove path) w)
      else (Inl (OSError ''FileNotFoundError''), log (Remove path) w))"

text \<open>
  \<^verbatim>\<open>
  def raise_for_status(self):
      http_error_msg = ""
      if 400 <= self.status_code < 500:
          http_error_msg = ... Client Error ...
      elif 500 <= self.status_code < 600:
          http_error_msg = ... Server Error ...
      if http_error_msg:
          raise HTTPError(http_error_msg, response=self)
  \<close>
\<close>

definition raise_for_status :: "response \<Rightarrow> py_error + unit" where
  "raise_for_status r =
     (if 400 \<le> status_code r \<and> status_code r < 500 then Inl (HTTPError (status_code r))
      else if 500 \<le> status_code r \<and> status_code r < 600 then Inl (HTTPError (status_code r))
      else Inr ())"

subsection \<open>\<^verbatim>\<open>get_extension_from_url\<close>\<close>

definition user_agent :: string where
  "user_agent = ''Mozilla/5.0 (Windows NT 10.0; Win64; x64) AppleWebKit/537.36 (KHTML, like Gecko) Chrome/91.0.4472.124 Safari/537.36''"

definition default_headers :: dict where
  "default_headers = [(''User-Agent'', user_agent)]"

text \<open>
  \<^verbatim>\<open>response.headers.get('content-type', '').split(';')[0]\<close>
\<close>

definition content_type_of :: "response \<Rightarrow> string" where
  "content_type_of r =
     takeWhile (\<lambda>c. c \<noteq> CHR '';'')
       (case map_of (resp_headers r) ''content-type'' of None \<Rightarrow> [] | Some v \<Rightarrow> v)"

text \<open>
  The body of the \<^verbatim>\<open>try\<close> block of \<^verbatim>\<open>get_extension_from_url\<close>. \<open>Inl e\<close>: the
  block raised \<open>e\<close>; \<open>Inr (Some ext)\<close>: it returned \<open>ext\<close>; \<open>Inr None\<close>: it ran to its
  end. The status code of the response is not looked at.
\<close>

definition probe_extension ::
  "stdlib \<Rightarrow> outside \<Rightarrow> string \<Rightarrow> world \<Rightarrow> (py_error + string option) \<times> world" where
  "probe_extension L out url w =
     (let (headers, w1) = new_dict default_headers w;
          w2 = log (Head url (heap w1 ! headers)) w1
      in case http_head out url (heap w1 ! headers) of
           Inl e \<Rightarrow> (Inl e, w2)
         | Inr response \<Rightarrow>
             (case guess_extension L (content_type_of response) of
                None \<Rightarrow> (Inr None, w2)
              | Some ext \<Rightarrow>
                  if ext \<noteq> [] then (Inr (Some (str_lower ext)), w2) else (Inr None, w2)))"

definition undeterminable :: "string \<Rightarrow> py_error" where
  "undeterminable url = ValueError (''Could not determine file extension from URL: '' @ url)"

text \<open>
  \<^verbatim>\<open>urlparse\<close> runs before the \<^verbatim>\<open>try\<close>: what it raises reaches the caller. The
  bare \<^verbatim>\<open>except: pass\<close> drops whatever the probe raises.
\<close>

definition get_extension_from_url ::
  "stdlib \<Rightarrow> outside \<Rightarrow> string \<Rightarrow> world \<Rightarrow> (py_error + string) \<times> world" where
  "get_extension_from_url L out url w =
     (case urlparse_path L url of
        Inl e \<Rightarrow> (Inl e, w)
      | Inr path \<Rightarrow>
          if path \<noteq> [] \<and> str_lower (snd (splitext path)) \<noteq> []
          then (Inr (str_lower (snd (splitext path))), w)
          else (case probe_extension L out url w of
                  (Inr (Some ext), w') \<Rightarrow> (Inr ext, w')
                | (Inr None, w') \<Rightarrow> (Inl (undeterminable url), w')
                | (Inl e, w') \<Rightarrow> (Inl (undeterminable url), w')))"

subsection \<open>\<^verbatim>\<open>download_file\<close>\<close>

definition minio_external :: "(string \<rightharpoonup> string) \<Rightarrow> string" where
  "minio_external env =
     (case env ''S3_PUBLIC_URL'' of None \<Rightarrow> ''http://78.46.146.79:9000'' | Some v \<Rightarrow> v)"

definition minio_internal :: "(string \<rightharpoonup> string) \<Rightarrow> string" where
  "minio_internal env =
     (case env ''S3_ENDPOINT_URL'' of None \<Rightarrow> ''http://minio:9000'' | Some v \<Rightarrow> v)"

definition rewrite_url :: "(string \<rightharpoonup> string) \<Rightarrow> string \<Rightarrow> string" where
  "rewrite_url env url =
     (if prefix (minio_external env) url
      then replace_first (minio_external env) (minio_internal env) url
      else url)"

text \<open>
  The loop over \<^verbatim>\<open>response.iter_content(chunk_size=8192)\<close>: an empty chunk is
  skipped, and the first error of the stream or of a write ends the loop.
\<close>

fun write_chunks ::
  "outside \<Rightarrow> string \<Rightarrow> (py_error + string) list \<Rightarrow> world \<Rightarrow> (py_error + unit) \<times> world" where
  "write_chunks out path [] w = (Inr (), w)"
| "write_chunks out path (Inl e # rest) w = (Inl e, w)"
| "write_chunks out path (Inr chunk # rest) w =
     (if chunk \<noteq> []
      then (case file_write out path chunk w of
              (Inl e, w') \<Rightarrow> (Inl e, w')
            | (Inr _, w') \<Rightarrow> write_chunks out path rest w')
      else write_chunks out path rest w)"

text \<open>
  The \<^verbatim>\<open>with open(...) as f\<close> block: the file is closed when the block is left,
  also by an exception; an error of the closing itself is then the one that propagates.
\<close>

definition write_body ::
  "outside \<Rightarrow> string \<Rightarrow> response \<Rightarrow> world \<Rightarrow> (py_error + unit) \<times> world" where
  "write_body out path r w =
     (case py_open out path w of
        (Inl e, w1) \<Rightarrow> (Inl e, w1)
      | (Inr _, w1) \<Rightarrow>
          (case write_chunks out path (body r) w1 of
             (Inl e, w2) \<Rightarrow>
               (case file_close out path w2 of
                  (Inl e', w3) \<Rightarrow> (Inl e', w3)
                | (Inr _, w3) \<Rightarrow> (Inl e, w3))
           | (Inr _, w2) \<Rightarrow> file_close out path w2))"

text \<open>
  The body of the \<^verbatim>\<open>try\<close> block of \<^verbatim>\<open>download_file\<close>: the header dictionary is a
  new object, updated from the caller's when that is given and not empty.
\<close>

definition fetch_to_file ::
  "outside \<Rightarrow> string \<Rightarrow> string \<Rightarrow> nat option \<Rightarrow> world \<Rightarrow> (py_error + string) \<times> world" where
  "fetch_to_file out url local_filename custom_headers w =
     (let (headers, w1) = new_dict default_headers w;
          w2 = (case custom_headers of
                  None \<Rightarrow> w1
                | Some c \<Rightarrow> if heap w1 ! c \<noteq> [] then dict_update headers c w1 else w1);
          w3 = log (Get url (heap w2 ! headers)) w2
      in case http_get out url (heap w2 ! headers) of
           Inl e \<Rightarrow> (Inl e, w3)
         | Inr response \<Rightarrow>
             (case raise_for_status response of
                Inl e \<Rightarrow> (Inl e, w3)
              | Inr _ \<Rightarrow>
                  (case write_body out local_filename response w3 of
                     (Inl e, w4) \<Rightarrow> (Inl e, w4)
                   | (Inr _, w4) \<Rightarrow> (Inr local_filename, w4))))"

text \<open>
  The \<^verbatim>\<open>except Exception as e\<close> handler: remove the file if something is there, then
  \<^verbatim>\<open>raise e\<close>. An error of \<^verbatim>\<open>os.remove\<close> itself leaves the handler in place of \<open>e\<close>.
\<close>

definition cleanup :: "string \<Rightarrow> py_error \<Rightarrow> world \<Rightarrow> (py_error + string) \<times> world" where
  "cleanup local_filename e w =
     (if os_path_exists local_filename w
      then (case os_remove local_filename w of
              (Inl e', w') \<Rightarrow> (Inl e', w')
            | (Inr _, w') \<Rightarrow> (Inl e, w'))
      else (Inl e, w))"

text \<open>The name of the file a download writes, given the resolved extension.\<close>

definition local_path :: "outside \<Rightarrow> string \<Rightarrow> string \<Rightarrow> string" where
  "local_path out storage_path extension = path_join storage_path (uuid4 out @ extension)"

definition download_file ::
  "stdlib \<Rightarrow> outside \<Rightarrow> string \<Rightarrow> string \<Rightarrow> nat option \<Rightarrow> world \<Rightarrow> (py_error + string) \<times> world"
  where
  "download_file L out url storage_path custom_headers w =
     (case os_makedirs out storage_path w of
        (Inl e, w1) \<Rightarrow> (Inl e, w1)
      | (Inr _, w1) \<Rightarrow>
          (let url' = rewrite_url (environ w1) url
           in case get_extension_from_url L out url' w1 of
                (Inl e, w2) \<Rightarrow> (Inl e, w2)
              | (Inr extension, w2) \<Rightarrow>
                  (let local_filename = local_path out storage_path extension
                   in case fetch_to_file out url' local_filename custom_headers w2 of
                        (Inl e, w3) \<Rightarrow> cleanup local_filename e w3
                      | (Inr p, w3) \<Rightarrow> (Inr p, w3))))"

subsection \<open>Observations on a run\<close>

text \<open>The calls a run has added to the trace, and the URLs of its network requests.\<close>

definition new_events :: "world \<Rightarrow> world \<Rightarrow> event list" where
  "new_events w w' = drop (length (trace w)) (trace w')"

fun request_urls :: "event list \<Rightarrow> string list" where
  "request_urls [] = []"
| "request_urls (Head url h # evs) = url # request_urls evs"
| "request_urls (Get url h # evs) = url # request_urls evs"
| "request_urls (ev # evs) = request_urls evs"

fun get_headers :: "event list \<Rightarrow> dict list" where
  "get_headers [] = []"
| "get_headers (Get url h # evs) = h # get_headers evs"
| "get_headers (ev # evs) = get_headers evs"

fun touches_file :: "event \<Rightarrow> bool" where
  "touches_file (Open p) = True"
| "touches_file (Write p c) = True"
| "touches_file (Close p) = True"
| "touches_file ev = False"

text \<open>The dictionary the caller passed by reference, empty when none was passed.\<close>

definition caller_headers :: "nat option \<Rightarrow> world \<Rightarrow> dict" where
  "caller_headers custom_headers w =
     (case custom_headers of None \<Rightarrow> [] | Some c \<Rightarrow> heap w ! c)"

text \<open>A reference is valid when it points into the heap.\<close>

definition valid_ref :: "nat option \<Rightarrow> world \<Rightarrow> bool" where
  "valid_ref custom_headers w =
     (case custom_headers of None \<Rightarrow> True | Some c \<Rightarrow> c < length (heap w))"

subsection \<open>A concrete setting\<close>

text \<open>
  A small media type table, a server and a file system on which the functions can be
  run: the table knows two media types, the host validators accept everything, the
  heap holds one dictionary of caller headers at reference 0, and nothing fails in the
  operating system. The answers of the server to HEAD and GET are left open.
\<close>

definition example_stdlib :: stdlib where
  "example_stdlib =
     \<lparr>types_map_inv = (\<lambda>t. if t = ''text/html'' then [''.html'', ''.htm'']
                             else if t = ''image/jpeg'' then [''.jpg''] else []),
      check_bracketed_host = (\<lambda>h. None),
      check_nfkc = (\<lambda>h. None)\<rparr>"

definition example_world :: world where
  "example_world =
     \<lparr>environ = Map.empty, dirs = {}, files = Map.empty,
      heap = [[(''User-Agent'', ''curl/8''), (''Authorization'', ''Bearer t'')]],
      trace = []\<rparr>"

definition example_response :: "nat \<Rightarrow> (py_error + string) list \<Rightarrow> response" where
  "example_response status chunks =
     \<lparr>status_code = status,
      resp_headers = [(''content-type'', ''text/html; charset=utf-8'')],
      body = chunks\<rparr>"

definition example_outside ::
  "(py_error + response) \<Rightarrow> (py_error + response) \<Rightarrow> outside" where
  "example_outside head_reply get_reply =
     \<lparr>uuid4 = ''123e4567-e89b-42d3-a456-426614174000'',
      http_head = (\<lambda>url h. head_reply),
      http_get = (\<lambda>url h. get_reply),
      makedirs_fault = (\<lambda>p. None),
      open_fault = (\<lambda>p. None),
      write_fault = (\<lambda>p content chunk. None),
      close_fault = (\<lambda>p. None)\<rparr>"

section \<open>Properties\<close>

subsection \<open>Strings and paths\<close>









lemma rfind_from_append:
  "rfind_from c (xs @ ys) i found =
   rfind_from c ys (i + int (length xs)) (rfind_from c xs i found)"
  by (induction xs arbitrary: i found) (simp_all add: add.assoc)

lemma rfind_from_absent: "c \<notin> set xs \<Longrightarrow> rfind_from c xs i found = found"
  by (induction xs arbitrary: i) auto

lemma skip_leading_dots_iff:
  "skip_leading_dots p i d \<longleftrightarrow> (\<exists>j. i \<le> j \<and> j < d \<and> p ! j \<noteq> CHR ''.'')"
proof (induction p i d rule: skip_leading_dots.induct)
  case (1 p i d)
  show ?case
  proof (cases "i < d")
    case False
    then show ?thesis
      by (subst skip_leading_dots.simps) auto
  next
    case True
    show ?thesis
    proof (cases "p ! i \<noteq> CHR ''.''")
      case True
      with \<open>i < d\<close> show ?thesis
        by (subst skip_leading_dots.simps) auto
    next
      case False
      then have dot: "p ! i = CHR ''.''" by simp
      have "skip_leading_dots p i d = skip_leading_dots p (Suc i) d"
        using \<open>i < d\<close> dot by (subst skip_leading_dots.simps) simp
      also have "\<dots> \<longleftrightarrow> (\<exists>j. Suc i \<le> j \<and> j < d \<and> p ! j \<noteq> CHR ''.'')"
        using "1.IH" \<open>i < d\<close> dot by simp
      also have "\<dots> \<longleftrightarrow> (\<exists>j. i \<le> j \<and> j < d \<and> p ! j \<noteq> CHR ''.'')"
        using dot by (metis Suc_leD Suc_leI le_neq_implies_less)
      finally show ?thesis .
    qed
  qed
qed



lemma splitext_trailing_dot:
  assumes no_sep: "CHR ''/'' \<notin> set stem"
    and named: "\<exists>c \<in> set stem. c \<noteq> CHR ''.''"
    and dir: "dir = [] \<or> last dir = CHR ''/''"
  shows "splitext (dir @ stem @ ''.'') = (dir @ stem, ''.'')"
proof -
  let ?p = "dir @ stem @ ''.''"
  have dot: "rfind ?p (CHR ''.'') = int (length dir) + int (length stem)"
    by (simp add: rfind_def rfind_from_append)
  have sep_dir: "rfind_from (CHR ''/'') dir 0 (- 1) = int (length dir) - 1"
  proof (cases "dir = []")
    case True
    then show ?thesis by simp
  next
    case False
    with dir have "dir = butlast dir @ [CHR ''/'']"
      by (metis append_butlast_last_id)
    then have "rfind_from (CHR ''/'') dir 0 (- 1) =
        rfind_from (CHR ''/'') (butlast dir @ [CHR ''/'']) 0 (- 1)"
      by simp
    also have "\<dots> = int (length (butlast dir))"
      by (simp add: rfind_from_append del: length_butlast)
    finally show ?thesis using False by (simp add: of_nat_diff Suc_leI)
  qed
  have sep: "rfind ?p (CHR ''/'') = int (length dir) - 1"
    using no_sep by (simp add: rfind_def rfind_from_append rfind_from_absent sep_dir)
  from named obtain k where k: "k < length stem" "stem ! k \<noteq> CHR ''.''"
    by (metis in_set_conv_nth)
  then have "?p ! (length dir + k) \<noteq> CHR ''.''"
    by (simp add: nth_append)
  with k have loop: "skip_leading_dots ?p (length dir) (length dir + length stem)"
    unfolding skip_leading_dots_iff by (intro exI [of _ "length dir + k"]) simp
  have idx: "nat (int (length dir) - 1 + 1) = length dir"
    "nat (int (length dir) + int (length stem)) = length dir + length stem"
    by simp_all
  show ?thesis
    unfolding splitext_def Let_def dot sep idx using loop by simp
qed









subsection \<open>Evaluation on the concrete setting\<close>

lemma parse_png: "urlparse_path example_stdlib ''http://x/a/b.PNG'' = Inr ''/a/b.PNG''"
  by code_simp

lemma splitext_png: "snd (splitext ''/a/b.PNG'') = ''.PNG''"
  by code_simp

lemma lower_png: "str_lower ''.PNG'' = ''.png''"
  by code_simp

lemma parse_trailing_dot: "urlparse_path example_stdlib ''http://x/file.'' = Inr ''/file.''"
  by code_simp

lemma splitext_trailing_dot_file: "snd (splitext ''/file.'') = ''.''"
  by code_simp

lemma lower_dot: "str_lower ''.'' = ''.''"
  by code_simp





subsection \<open>Extension resolution\<close>



text \<open>
  For \<^verbatim>\<open>http://x/file.\<close> the path step does not yield the empty extension: the
  resolver returns \<^verbatim>\<open>.\<close> and the trace stays empty.
\<close>

theorem trailing_dot_counterexample:
  "urlparse_path example_stdlib ''http://x/file.'' = Inr ''/file.'' \<and>
   snd (splitext ''/file.'') = ''.'' \<and>
   fst (get_extension_from_url example_stdlib
          (example_outside (Inr (example_response 200 [])) (Inr (example_response 200 [])))
          ''http://x/file.'' example_world) = Inr ''.'' \<and>
   trace (snd (get_extension_from_url example_stdlib
          (example_outside (Inr (example_response 200 [])) (Inr (example_response 200 [])))
          ''http://x/file.'' example_world)) = []"
  by (simp add: parse_trailing_dot splitext_trailing_dot_file lower_dot
      get_extension_from_url_def example_world_def)

text \<open>
  C7, as the code has it. A path whose last segment is a name followed by a lone dot
  (\<^verbatim>\<open>/file.\<close>) has the extension \<^verbatim>\<open>.\<close> for \<^verbatim>\<open>splitext\<close>: the name holds a character
  other than the dot, so the loop over the leading dots returns the split at the last
  dot. The extension is not empty, the resolver returns it, and no probe is made.
\<close>

theorem trailing_dot_is_returned:
  assumes "urlparse_path L url = Inr (dir @ stem @ ''.'')"
    and "CHR ''/'' \<notin> set stem"
    and "\<exists>c \<in> set stem. c \<noteq> CHR ''.''"
    and "dir = [] \<or> last dir = CHR ''/''"
  shows "splitext (dir @ stem @ ''.'') = (dir @ stem, ''.'') \<and>
         get_extension_from_url L out url w = (Inr ''.'', w)"
proof -
  have split: "splitext (dir @ stem @ ''.'') = (dir @ stem, ''.'')"
    using assms(2-4) by (rule splitext_trailing_dot)
  with assms(1) show ?thesis
    by (simp add: get_extension_from_url_def lower_dot)
qed

theorem trailing_dot_is_returned_witness:
  "urlparse_path example_stdlib ''http://x/file.'' = Inr (''/'' @ ''file'' @ ''.'') \<and>
   CHR ''/'' \<notin> set ''file'' \<and> list_ex (\<lambda>c. c \<noteq> CHR ''.'') ''file'' \<and> last ''/'' = CHR ''/'' \<and>
   splitext (''/'' @ ''file'' @ ''.'') = (''/'' @ ''file'', ''.'') \<and>
   get_extension_from_url example_stdlib
     (example_outside (Inr (example_response 200 [])) (Inr (example_response 200 [])))
     ''http://x/file.'' example_world = (Inr ''.'', example_world)"
proof -
  have p: "urlparse_path example_stdlib ''http://x/file.'' = Inr (''/'' @ ''file'' @ ''.'')"
    by (simp add: parse_trailing_dot)
  have s: "CHR ''/'' \<notin> set ''file''" by simp
  have n: "\<exists>c \<in> set ''file''. c \<noteq> CHR ''.''" by simp
  have d: "''/'' = [] \<or> last ''/'' = CHR ''/''" by simp
  show ?thesis
    using trailing_dot_is_returned [OF p s n d] p by simp
qed












subsection \<open>What each step leaves alone\<close>

lemma file_events_no_requests:
  "list_all touches_file evs \<Longrightarrow> request_urls evs = [] \<and> get_headers evs = []"
proof (induction evs)
  case Nil
  then show ?case by simp
next
  case (Cons ev evs)
  then show ?case by (cases ev) simp_all
qed

lemma os_makedirs_ok:
  assumes "os_makedirs out sp w = (Inr u, w1)"
  shows "w1 = w\<lparr>dirs := insert sp (dirs w), trace := trace w @ [Makedirs sp]\<rparr>"
  using assms by (auto simp: os_makedirs_def log_def split: option.splits)

lemma os_makedirs_failed:
  assumes "os_makedirs out sp w = (Inl e, w1)"
  shows "w1 = w\<lparr>trace := trace w @ [Makedirs sp]\<rparr>"
  using assms by (auto simp: os_makedirs_def log_def split: option.splits)

lemma get_extension_world:
  assumes "get_extension_from_url L out url w = (r, w')"
  shows "w' = w \<or>
         w' = w\<lparr>heap := heap w @ [default_headers], trace := trace w @ [Head url default_headers]\<rparr>"
  using assms
  by (auto simp: get_extension_from_url_def probe_extension_def new_dict_def log_def Let_def
      split: sum.splits option.splits if_splits)

lemma file_write_frame:
  assumes "file_write out p chunk w = (r, w')"
  shows "environ w' = environ w \<and> dirs w' = dirs w \<and> heap w' = heap w \<and>
         trace w' = trace w @ [Write p chunk] \<and> (\<forall>q. q \<noteq> p \<longrightarrow> files w' q = files w q)"
  using assms by (auto simp: file_write_def log_def Let_def split: option.splits)

lemma write_chunks_frame:
  assumes "write_chunks out p chunks w = (r, w')"
  shows "environ w' = environ w \<and> dirs w' = dirs w \<and> heap w' = heap w \<and>
         (\<exists>evs. trace w' = trace w @ evs \<and> list_all touches_file evs) \<and>
         (\<forall>q. q \<noteq> p \<longrightarrow> files w' q = files w q)"
  using assms
proof (induction out p chunks w arbitrary: r w' rule: write_chunks.induct)
  case (1 out path w)
  then show ?case by simp
next
  case (2 out path e rest w)
  then show ?case by simp
next
  case (3 out path chunk rest w)
  show ?case
  proof (cases "chunk = []")
    case True
    with 3 show ?thesis by simp
  next
    case False
    obtain r1 w1 where fw: "file_write out path chunk w = (r1, w1)"
      by (cases "file_write out path chunk w")
    note f1 = file_write_frame [OF fw]
    show ?thesis
    proof (cases r1)
      case (Inl e)
      with 3(3) False fw have "w' = w1" by simp
      with f1 show ?thesis by simp
    next
      case (Inr u)
      with 3(3) False fw have "write_chunks out path rest w1 = (r, w')" by simp
      from "3.IH"(1) [OF False fw [symmetric] Inr this] f1
      show ?thesis by auto
    qed
  qed
qed

lemma file_close_frame:
  assumes "file_close out p w = (r, w')"
  shows "w' = w\<lparr>trace := trace w @ [Close p]\<rparr>"
  using assms by (auto simp: file_close_def log_def split: option.splits)

lemma py_open_frame:
  assumes "py_open out p w = (r, w')"
  shows "environ w' = environ w \<and> dirs w' = dirs w \<and> heap w' = heap w \<and>
         trace w' = trace w @ [Open p] \<and> (\<forall>q. q \<noteq> p \<longrightarrow> files w' q = files w q)"
  using assms by (auto simp: py_open_def log_def split: option.splits if_splits)

lemma write_body_frame:
  assumes "write_body out p resp w = (r, w')"
  shows "environ w' = environ w \<and> dirs w' = dirs w \<and> heap w' = heap w \<and>
         (\<exists>evs. trace w' = trace w @ Open p # evs \<and> list_all touches_file evs) \<and>
         (\<forall>q. q \<noteq> p \<longrightarrow> files w' q = files w q)"
proof -
  obtain r1 w1 where op: "py_open out p w = (r1, w1)"
    by (cases "py_open out p w")
  note f1 = py_open_frame [OF op]
  show ?thesis
  proof (cases r1)
    case (Inl e)
    with assms op have "w' = w1" by (simp add: write_body_def)
    with f1 show ?thesis by simp
  next
    case (Inr u)
    obtain r2 w2 where wc: "write_chunks out p (body resp) w1 = (r2, w2)"
      by (cases "write_chunks out p (body resp) w1")
    note f2 = write_chunks_frame [OF wc]
    obtain r3 w3 where cl: "file_close out p w2 = (r3, w3)"
      by (cases "file_close out p w2")
    note f3 = file_close_frame [OF cl]
    from assms op Inr wc cl have "w' = w3"
      by (auto simp: write_body_def split: sum.splits)
    with f1 f2 f3 show ?thesis by auto
  qed
qed

lemma update_items_Nil: "update_items d [] = d"
  by (simp add: update_items_def)

lemma map_of_update_items:
  assumes "well_formed_dict other"
  shows "map_of (update_items d other) = map_of d ++ map_of other"
  using assms
proof (induction other arbitrary: d)
  case Nil
  then show ?case by (simp add: update_items_def)
next
  case (Cons kv other)
  obtain k v where kv: "kv = (k, v)" by (cases kv)
  from Cons.prems kv have fresh: "k \<notin> fst ` set other" and wf: "well_formed_dict other"
    by (simp_all add: well_formed_dict_def)
  have "map_of (update_items d (kv # other)) = map_of (update_items (AList.update k v d) other)"
    by (simp add: update_items_def kv)
  also have "\<dots> = map_of (AList.update k v d) ++ map_of other"
    using Cons.IH [OF wf] by simp
  also have "\<dots> = (map_of d)(k \<mapsto> v) ++ map_of other"
    by (simp only: update_conv')
  also have "\<dots> = map_of d ++ map_of (kv # other)"
  proof (rule ext)
    fix x
    from fresh have "map_of other k = None"
      by (simp add: map_of_eq_None_iff)
    then show "((map_of d)(k \<mapsto> v) ++ map_of other) x = (map_of d ++ map_of (kv # other)) x"
      by (auto simp: kv map_add_def split: option.splits)
  qed
  finally show ?case .
qed


lemma fetch_to_file_unfold:
  assumes "valid_ref ch w"
  shows "fetch_to_file out url p ch w =
     (let sent = update_items default_headers (caller_headers ch w);
          w3 = w\<lparr>heap := heap w @ [sent], trace := trace w @ [Get url sent]\<rparr>
      in case http_get out url sent of
           Inl e \<Rightarrow> (Inl e, w3)
         | Inr response \<Rightarrow>
             (case raise_for_status response of
                Inl e \<Rightarrow> (Inl e, w3)
              | Inr u \<Rightarrow>
                  (case write_body out p response w3 of
                     (Inl e, w4) \<Rightarrow> (Inl e, w4)
                   | (Inr u, w4) \<Rightarrow> (Inr p, w4))))"
proof (cases ch)
  case None
  then show ?thesis
    by (auto simp: fetch_to_file_def new_dict_def log_def Let_def caller_headers_def
        update_items_Nil split: sum.splits prod.splits)
next
  case (Some c)
  with assms have c: "c < length (heap w)" by (simp add: valid_ref_def)
  show ?thesis
  proof (cases "heap w ! c = []")
    case True
    with Some c show ?thesis
      by (auto simp: fetch_to_file_def new_dict_def log_def Let_def caller_headers_def
          update_items_Nil nth_append split: sum.splits prod.splits)
  next
    case False
    with Some c show ?thesis
      by (auto simp: fetch_to_file_def new_dict_def log_def Let_def caller_headers_def
          dict_update_def nth_append split: sum.splits prod.splits)
  qed
qed

lemma fetch_to_file_frame:
  assumes valid: "valid_ref ch w" and run: "fetch_to_file out url p ch w = (r, w')"
  shows "environ w' = environ w \<and> dirs w' = dirs w \<and>
         heap w' = heap w @ [update_items default_headers (caller_headers ch w)] \<and>
         (\<exists>evs. trace w' =
                 trace w @ Get url (update_items default_headers (caller_headers ch w)) # evs \<and>
               list_all touches_file evs) \<and>
         (\<forall>q. q \<noteq> p \<longrightarrow> files w' q = files w q)"
proof -
  let ?sent = "update_items default_headers (caller_headers ch w)"
  let ?w3 = "w\<lparr>heap := heap w @ [?sent], trace := trace w @ [Get url ?sent]\<rparr>"
  note unfolded = run [unfolded fetch_to_file_unfold [OF valid] Let_def]
  show ?thesis
  proof (cases "http_get out url ?sent")
    case (Inl e)
    with unfolded have "w' = ?w3" by simp
    then show ?thesis by simp
  next
    case (Inr response)
    show ?thesis
    proof (cases "raise_for_status response")
      case (Inl e)
      with Inr unfolded have "w' = ?w3" by simp
      then show ?thesis by simp
    next
      case ok: (Inr u)
      obtain r4 w4 where wb: "write_body out p response ?w3 = (r4, w4)"
        by (cases "write_body out p response ?w3")
      with Inr ok unfolded have "w' = w4" by (auto split: sum.splits)
      with write_body_frame [OF wb] show ?thesis by auto
    qed
  qed
qed

lemma cleanup_frame:
  assumes "cleanup p e w = (r, w')"
  shows "environ w' = environ w \<and> dirs w' = dirs w \<and> heap w' = heap w \<and>
         (trace w' = trace w \<or> trace w' = trace w @ [Remove p]) \<and>
         (\<forall>q. q \<noteq> p \<longrightarrow> files w' q = files w q) \<and>
         (\<exists>e'. r = Inl e')"
  using assms
  by (auto simp: cleanup_def os_path_exists_def os_remove_def log_def split: if_splits)


subsection \<open>The stages of a download\<close>

lemma download_file_cases [case_names makedirs_failed resolve_failed fetch_failed downloaded]:
  obtains
    (makedirs_failed) e w1 where
      "os_makedirs out sp w = (Inl e, w1)"
      "download_file L out url sp ch w = (Inl e, w1)"
  | (resolve_failed) u w1 e w2 where
      "os_makedirs out sp w = (Inr u, w1)"
      "get_extension_from_url L out (rewrite_url (environ w) url) w1 = (Inl e, w2)"
      "download_file L out url sp ch w = (Inl e, w2)"
  | (fetch_failed) u w1 ext w2 e w3 where
      "os_makedirs out sp w = (Inr u, w1)"
      "get_extension_from_url L out (rewrite_url (environ w) url) w1 = (Inr ext, w2)"
      "fetch_to_file out (rewrite_url (environ w) url) (local_path out sp ext) ch w2 = (Inl e, w3)"
      "download_file L out url sp ch w = cleanup (local_path out sp ext) e w3"
  | (downloaded) u w1 ext w2 p w3 where
      "os_makedirs out sp w = (Inr u, w1)"
      "get_extension_from_url L out (rewrite_url (environ w) url) w1 = (Inr ext, w2)"
      "fetch_to_file out (rewrite_url (environ w) url) (local_path out sp ext) ch w2 = (Inr p, w3)"
      "download_file L out url sp ch w = (Inr p, w3)"
proof -
  obtain r1 w1 where mk: "os_makedirs out sp w = (r1, w1)"
    by (cases "os_makedirs out sp w")
  show thesis
  proof (cases r1)
    case (Inl e)
    with mk have "download_file L out url sp ch w = (Inl e, w1)"
      by (simp add: download_file_def)
    with mk Inl show thesis by (auto intro: makedirs_failed)
  next
    case (Inr u)
    with mk have "os_makedirs out sp w = (Inr u, w1)" by simp
    from os_makedirs_ok [OF this] have env: "environ w1 = environ w"
      by simp
    obtain r2 w2 where ge: "get_extension_from_url L out (rewrite_url (environ w) url) w1 = (r2, w2)"
      by (cases "get_extension_from_url L out (rewrite_url (environ w) url) w1")
    show thesis
    proof (cases r2)
      case (Inl e)
      with mk Inr ge env have "download_file L out url sp ch w = (Inl e, w2)"
        by (simp add: download_file_def)
      with mk Inr ge Inl show thesis by (auto intro: resolve_failed)
    next
      case ext: (Inr ext)
      obtain r3 w3 where
        fe: "fetch_to_file out (rewrite_url (environ w) url) (local_path out sp ext) ch w2 = (r3, w3)"
        by (cases "fetch_to_file out (rewrite_url (environ w) url) (local_path out sp ext) ch w2")
      show thesis
      proof (cases r3)
        case (Inl e)
        with mk Inr ge ext fe env
        have "download_file L out url sp ch w = cleanup (local_path out sp ext) e w3"
          by (simp add: download_file_def)
        with mk Inr ge ext fe Inl show thesis by (auto intro: fetch_failed)
      next
        case p: (Inr p)
        with mk Inr ge ext fe env
        have "download_file L out url sp ch w = (Inr p, w3)"
          by (simp add: download_file_def)
        with mk Inr ge ext fe p show thesis by (auto intro: downloaded)
      qed
    qed
  qed
qed

lemma valid_ref_extended:
  assumes "valid_ref ch w" and "heap w' = heap w \<or> heap w' = heap w @ hs"
  shows "valid_ref ch w' \<and> caller_headers ch w' = caller_headers ch w"
  using assms by (cases ch) (auto simp: valid_ref_def caller_headers_def nth_append)

text \<open>
  C9. The dictionary of the caller is not changed by a download, whatever its outcome:
  the header dictionary that is updated is a new object, and every object that was on
  the heap before the call is there afterwards with the entries it had.
\<close>

theorem caller_headers_not_mutated:
  assumes "c < length (heap w)"
  shows "heap (snd (download_file L out url sp (Some c) w)) ! c = heap w ! c \<and>
         take (length (heap w)) (heap (snd (download_file L out url sp (Some c) w))) = heap w"
proof -
  let ?ch = "Some c"
  from assms have valid: "valid_ref ?ch w" by (simp add: valid_ref_def)
  have "\<exists>hs. heap (snd (download_file L out url sp ?ch w)) = heap w @ hs"
  proof (cases rule: download_file_cases [of out sp w L url ?ch])
    case (makedirs_failed e w1)
    from os_makedirs_failed [OF makedirs_failed(1)] makedirs_failed(2)
    show ?thesis by simp
  next
    case (resolve_failed u w1 e w2)
    from os_makedirs_ok [OF resolve_failed(1)] get_extension_world [OF resolve_failed(2)]
    have "heap w2 = heap w \<or> heap w2 = heap w @ [default_headers]" by auto
    with resolve_failed(3) show ?thesis by auto
  next
    case (fetch_failed u w1 ext w2 e w3)
    from os_makedirs_ok [OF fetch_failed(1)] get_extension_world [OF fetch_failed(2)]
    have h2: "heap w2 = heap w \<or> heap w2 = heap w @ [default_headers]" by auto
    with valid have "valid_ref ?ch w2" by (simp add: valid_ref_extended)
    from fetch_to_file_frame [OF this fetch_failed(3)] h2
    have "\<exists>hs. heap w3 = heap w @ hs" by auto
    moreover obtain r w' where cl: "cleanup (local_path out sp ext) e w3 = (r, w')"
      by (cases "cleanup (local_path out sp ext) e w3")
    ultimately show ?thesis
      using cleanup_frame [OF cl] fetch_failed(4) by simp
  next
    case (downloaded u w1 ext w2 p w3)
    from os_makedirs_ok [OF downloaded(1)] get_extension_world [OF downloaded(2)]
    have h2: "heap w2 = heap w \<or> heap w2 = heap w @ [default_headers]" by auto
    with valid have "valid_ref ?ch w2" by (simp add: valid_ref_extended)
    from fetch_to_file_frame [OF this downloaded(3)] h2
    have "\<exists>hs. heap w3 = heap w @ hs" by auto
    with downloaded(4) show ?thesis by simp
  qed
  then obtain hs where "heap (snd (download_file L out url sp ?ch w)) = heap w @ hs" ..
  with assms show ?thesis by (simp add: nth_append)
qed

theorem caller_headers_not_mutated_witness:
  "(0::nat) < length (heap example_world) \<and>
   heap (snd (download_file example_stdlib
      (example_outside (Inl (RequestException ''timeout''))
         (Inr (example_response 200 [Inr ''ab'', Inl (RequestException ''reset'')])))
      ''http://x/a/b.PNG'' ''/tmp/'' (Some 0) example_world)) ! 0 =
     [(''User-Agent'', ''curl/8''), (''Authorization'', ''Bearer t'')]"
proof -
  have c: "(0::nat) < length (heap example_world)"
    by (simp add: example_world_def)
  from caller_headers_not_mutated [OF c] c show ?thesis
    by (simp add: example_world_def)
qed

lemma fetch_to_file_shape:
  "\<exists>sent w3. environ w3 = environ w \<and> dirs w3 = dirs w \<and> files w3 = files w \<and>
     trace w3 = trace w @ [Get url sent] \<and>
     fetch_to_file out url p ch w =
       (case http_get out url sent of
          Inl e \<Rightarrow> (Inl e, w3)
        | Inr response \<Rightarrow>
            (case raise_for_status response of
               Inl e \<Rightarrow> (Inl e, w3)
             | Inr u \<Rightarrow>
                 (case write_body out p response w3 of
                    (Inl e, w4) \<Rightarrow> (Inl e, w4)
                  | (Inr u, w4) \<Rightarrow> (Inr p, w4))))"
proof -
  define w1 where "w1 = snd (new_dict default_headers w)"
  define hd_ref where "hd_ref = fst (new_dict default_headers w)"
  define w2 where "w2 = (case ch of None \<Rightarrow> w1
      | Some c \<Rightarrow> if heap w1 ! c \<noteq> [] then dict_update hd_ref c w1 else w1)"
  define w3 where "w3 = log (Get url (heap w2 ! hd_ref)) w2"
  have w3: "environ w3 = environ w \<and> dirs w3 = dirs w \<and> files w3 = files w \<and>
      trace w3 = trace w @ [Get url (heap w2 ! hd_ref)]"
    by (cases ch) (simp_all add: w3_def w2_def w1_def new_dict_def dict_update_def log_def)
  have "fetch_to_file out url p ch w =
      (case http_get out url (heap w2 ! hd_ref) of
         Inl e \<Rightarrow> (Inl e, w3)
       | Inr response \<Rightarrow>
           (case raise_for_status response of
              Inl e \<Rightarrow> (Inl e, w3)
            | Inr u \<Rightarrow>
                (case write_body out p response w3 of
                   (Inl e, w4) \<Rightarrow> (Inl e, w4)
                 | (Inr u, w4) \<Rightarrow> (Inr p, w4))))"
    unfolding fetch_to_file_def Let_def w3_def w2_def w1_def hd_ref_def split_beta
    by (rule refl)
  with w3 show ?thesis by blast
qed

lemma fetch_to_file_frame_any:
  assumes "fetch_to_file out url p ch w = (r, w')"
  shows "environ w' = environ w \<and> dirs w' = dirs w \<and>
         (\<exists>h evs. trace w' = trace w @ Get url h # evs \<and> list_all touches_file evs) \<and>
         (\<forall>q. q \<noteq> p \<longrightarrow> files w' q = files w q)"
proof -
  from fetch_to_file_shape [of w url out p ch] obtain sent w3 where
    w3: "environ w3 = environ w \<and> dirs w3 = dirs w \<and> files w3 = files w \<and>
      trace w3 = trace w @ [Get url sent]"
    and run: "fetch_to_file out url p ch w =
      (case http_get out url sent of
         Inl e \<Rightarrow> (Inl e, w3)
       | Inr response \<Rightarrow>
           (case raise_for_status response of
              Inl e \<Rightarrow> (Inl e, w3)
            | Inr u \<Rightarrow>
                (case write_body out p response w3 of
                   (Inl e, w4) \<Rightarrow> (Inl e, w4)
                 | (Inr u, w4) \<Rightarrow> (Inr p, w4))))"
    by blast
  show ?thesis
  proof (cases "http_get out url sent")
    case (Inl e)
    with run assms have "w' = w3" by simp
    with w3 show ?thesis by simp
  next
    case (Inr response)
    show ?thesis
    proof (cases "raise_for_status response")
      case (Inl e)
      with Inr run assms have "w' = w3" by simp
      with w3 show ?thesis by simp
    next
      case ok: (Inr u)
      obtain r4 w4 where wb: "write_body out p response w3 = (r4, w4)"
        by (cases "write_body out p response w3")
      with Inr ok run assms have "w' = w4" by (auto split: sum.splits)
      with write_body_frame [OF wb] w3 show ?thesis by auto
    qed
  qed
qed

lemma resolve_world:
  assumes mk: "os_makedirs out sp w = (Inr u, w1)"
    and ge: "get_extension_from_url L out url' w1 = (r, w2)"
  shows "environ w2 = environ w \<and> dirs w2 = insert sp (dirs w) \<and> files w2 = files w \<and>
         (trace w2 = trace w @ [Makedirs sp] \<or>
          trace w2 = trace w @ [Makedirs sp, Head url' default_headers])"
  using os_makedirs_ok [OF mk] get_extension_world [OF ge] by auto

text \<open>
  C10. When the storage directory has been created, it is there after the call on every
  outcome, as is every directory that was there before; the call to create it is the
  first call of the run. When the extension cannot be resolved, the error of the resolver
  is the outcome, no file has changed, no GET has been issued and no file has been
  opened. When it is resolved, the only file that can differ afterwards is the one at
  the computed local path.
\<close>

theorem storage_directory_kept:
  assumes mk: "os_makedirs out sp w = (Inr u, w1)"
  shows "sp \<in> dirs (snd (download_file L out url sp ch w)) \<and>
         dirs w \<subseteq> dirs (snd (download_file L out url sp ch w)) \<and>
         (\<exists>evs. new_events w (snd (download_file L out url sp ch w)) = Makedirs sp # evs) \<and>
         (case get_extension_from_url L out (rewrite_url (environ w) url) w1 of
            (Inl e, w2) \<Rightarrow>
              fst (download_file L out url sp ch w) = Inl e \<and>
              files (snd (download_file L out url sp ch w)) = files w \<and>
              get_headers (new_events w (snd (download_file L out url sp ch w))) = [] \<and>
              \<not> list_ex touches_file (new_events w (snd (download_file L out url sp ch w)))
          | (Inr ext, w2) \<Rightarrow>
              (\<forall>q. q \<noteq> local_path out sp ext \<longrightarrow>
                 files (snd (download_file L out url sp ch w)) q = files w q))"
proof (cases rule: download_file_cases [of out sp w L url ch])
  case (makedirs_failed e w1')
  with mk show ?thesis by simp
next
  case (resolve_failed u' w1' e w2)
  with mk have ge: "get_extension_from_url L out (rewrite_url (environ w) url) w1 = (Inl e, w2)"
    by simp
  from resolve_world [OF mk ge] resolve_failed(3) ge
  show ?thesis by (auto simp: new_events_def)
next
  case (fetch_failed u' w1' ext w2 e w3)
  with mk have ge: "get_extension_from_url L out (rewrite_url (environ w) url) w1 = (Inr ext, w2)"
    by simp
  note f2 = resolve_world [OF mk ge]
  note f3 = fetch_to_file_frame_any [OF fetch_failed(3)]
  obtain r w' where cl: "cleanup (local_path out sp ext) e w3 = (r, w')"
    by (cases "cleanup (local_path out sp ext) e w3")
  note f4 = cleanup_frame [OF cl]
  from fetch_failed(4) cl have res: "download_file L out url sp ch w = (r, w')" by simp
  from f2 f3 f4 have "\<exists>evs. trace w' = trace w @ Makedirs sp # evs" by auto
  then have "\<exists>evs. new_events w w' = Makedirs sp # evs"
    by (auto simp: new_events_def)
  with f2 f3 f4 show ?thesis
    unfolding res ge by auto
next
  case (downloaded u' w1' ext w2 p w3)
  with mk have ge: "get_extension_from_url L out (rewrite_url (environ w) url) w1 = (Inr ext, w2)"
    by simp
  note f2 = resolve_world [OF mk ge]
  note f3 = fetch_to_file_frame_any [OF downloaded(3)]
  from f2 f3 have "\<exists>evs. trace w3 = trace w @ Makedirs sp # evs" by auto
  then have "\<exists>evs. new_events w w3 = Makedirs sp # evs"
    by (auto simp: new_events_def)
  with f2 f3 show ?thesis
    unfolding downloaded(4) ge by auto
qed


lemma example_makedirs:
  "os_makedirs (example_outside head_reply get_reply) ''/tmp/'' example_world =
     (Inr (), snd (os_makedirs (example_outside head_reply get_reply) ''/tmp/'' example_world))"
  by (simp add: os_makedirs_def example_outside_def)

lemma example_environ: "environ example_world = Map.empty"
  by (simp add: example_world_def)

lemma example_rewrite_png:
  "rewrite_url Map.empty ''http://x/a/b.PNG'' = ''http://x/a/b.PNG''"
  by code_simp

lemma example_rewrite_bare:
  "rewrite_url Map.empty ''http://example.com'' = ''http://example.com''"
  by code_simp

lemma example_resolve_png:
  "get_extension_from_url example_stdlib out ''http://x/a/b.PNG'' w = (Inr ''.png'', w)"
  by (simp add: get_extension_from_url_def parse_png splitext_png lower_png)




lemma example_resolve_bare:
  "fst (get_extension_from_url example_stdlib
          (example_outside (Inl (RequestException ''timeout'')) (Inr (example_response 200 [])))
          ''http://example.com''
          (snd (os_makedirs
             (example_outside (Inl (RequestException ''timeout'')) (Inr (example_response 200 [])))
             ''/tmp/'' example_world))) =
     Inl (ValueError ''Could not determine file extension from URL: http://example.com'')"
  by code_simp

theorem storage_directory_kept_witness:
  "''/tmp/'' \<in> dirs (snd (download_file example_stdlib
      (example_outside (Inl (RequestException ''timeout'')) (Inr (example_response 200 [])))
      ''http://example.com'' ''/tmp/'' None example_world)) \<and>
   fst (download_file example_stdlib
      (example_outside (Inl (RequestException ''timeout'')) (Inr (example_response 200 [])))
      ''http://example.com'' ''/tmp/'' None example_world) =
     Inl (ValueError ''Could not determine file extension from URL: http://example.com'') \<and>
   files (snd (download_file example_stdlib
      (example_outside (Inl (RequestException ''timeout'')) (Inr (example_response 200 [])))
      ''http://example.com'' ''/tmp/'' None example_world)) = files example_world \<and>
   get_headers (new_events example_world (snd (download_file example_stdlib
      (example_outside (Inl (RequestException ''timeout'')) (Inr (example_response 200 [])))
      ''http://example.com'' ''/tmp/'' None example_world))) = []"
proof -
  let ?out = "example_outside (Inl (RequestException ''timeout'')) (Inr (example_response 200 []))"
  let ?w1 = "snd (os_makedirs ?out ''/tmp/'' example_world)"
  let ?url = "''http://example.com''"
  let ?e = "ValueError ''Could not determine file extension from URL: http://example.com''"
  have mk: "os_makedirs ?out ''/tmp/'' example_world = (Inr (), ?w1)"
    by (rule example_makedirs)
  have ge: "get_extension_from_url example_stdlib ?out
      (rewrite_url (environ example_world) ?url) ?w1 =
        (Inl ?e, snd (get_extension_from_url example_stdlib ?out ?url ?w1))"
    using example_resolve_bare
    by (simp only: example_environ example_rewrite_bare prod_eq_iff fst_conv snd_conv simp_thms)
  from storage_directory_kept [OF mk, of example_stdlib ?url None]
  show ?thesis
    unfolding ge by simp
qed

subsection \<open>The requests of a download\<close>


lemma get_headers_append: "get_headers (xs @ ys) = get_headers xs @ get_headers ys"
  by (induction xs rule: get_headers.induct) simp_all









text \<open>
  C8. Once the directory is made and the extension resolved, the download issues one
  GET, and its headers are the default User-Agent dictionary updated with the
  dictionary of the caller: a key of the caller has the caller's value (so the caller can
  replace the User-Agent), any other key has the default value, and with no caller
  dictionary, or an empty one, the headers are the default ones.
\<close>

theorem default_headers_merged_with_custom:
  assumes valid: "valid_ref ch w"
    and wf: "well_formed_dict (caller_headers ch w)"
    and mk: "os_makedirs out sp w = (Inr u, w1)"
    and ge: "get_extension_from_url L out (rewrite_url (environ w) url) w1 = (Inr ext, w2)"
  shows "get_headers (new_events w (snd (download_file L out url sp ch w))) =
           [update_items default_headers (caller_headers ch w)] \<and>
         (\<forall>k. map_of (update_items default_headers (caller_headers ch w)) k =
               (case map_of (caller_headers ch w) k of
                  Some v \<Rightarrow> Some v
                | None \<Rightarrow> map_of default_headers k)) \<and>
         (caller_headers ch w = [] \<longrightarrow>
            update_items default_headers (caller_headers ch w) = default_headers) \<and>
         default_headers = [(''User-Agent'', user_agent)]"
proof -
  let ?url = "rewrite_url (environ w) url"
  let ?sent = "update_items default_headers (caller_headers ch w)"
  let ?w' = "snd (download_file L out url sp ch w)"
  from os_makedirs_ok [OF mk] have env: "environ w1 = environ w" by simp
  from os_makedirs_ok [OF mk] get_extension_world [OF ge]
  have h2: "heap w2 = heap w \<or> heap w2 = heap w @ [default_headers]" by auto
  from valid_ref_extended [OF valid h2]
  have valid2: "valid_ref ch w2" and same: "caller_headers ch w2 = caller_headers ch w"
    by simp_all
  from resolve_world [OF mk ge] obtain heads where
    t2: "trace w2 = trace w @ Makedirs sp # heads"
    and heads: "heads = [] \<or> heads = [Head ?url default_headers]"
    by auto
  obtain r3 w3 where fe: "fetch_to_file out ?url (local_path out sp ext) ch w2 = (r3, w3)"
    by (cases "fetch_to_file out ?url (local_path out sp ext) ch w2")
  from fetch_to_file_frame [OF valid2 fe] same obtain evs where
    t3: "trace w3 = trace w2 @ Get ?url ?sent # evs" and evs: "list_all touches_file evs"
    by auto
  have "\<exists>rm. trace ?w' = trace w3 @ rm \<and> get_headers rm = []"
  proof (cases r3)
    case (Inl e)
    obtain r w' where cl: "cleanup (local_path out sp ext) e w3 = (r, w')"
      by (cases "cleanup (local_path out sp ext) e w3")
    from mk ge fe Inl env
    have "download_file L out url sp ch w = cleanup (local_path out sp ext) e w3"
      by (simp add: download_file_def)
    with cleanup_frame [OF cl] cl show ?thesis by auto
  next
    case (Inr p)
    with mk ge fe env have "download_file L out url sp ch w = (Inr p, w3)"
      by (simp add: download_file_def)
    then show ?thesis by simp
  qed
  then obtain rm where t4: "trace ?w' = trace w3 @ rm" and rm: "get_headers rm = []"
    by blast
  from t2 t3 t4 have "new_events w ?w' = Makedirs sp # heads @ Get ?url ?sent # evs @ rm"
    by (simp add: new_events_def)
  with heads rm file_events_no_requests [OF evs]
  have sent: "get_headers (new_events w ?w') = [?sent]"
    by (auto simp: get_headers_append)
  have lookup: "\<forall>k. map_of ?sent k =
      (case map_of (caller_headers ch w) k of Some v \<Rightarrow> Some v | None \<Rightarrow> map_of default_headers k)"
    by (simp add: map_of_update_items [OF wf] map_add_def)
  from sent lookup show ?thesis
    by (simp add: update_items_Nil default_headers_def)
qed

theorem default_headers_merged_with_custom_witness:
  "valid_ref (Some 0) example_world \<and>
   well_formed_dict (caller_headers (Some 0) example_world) \<and>
   get_headers (new_events example_world (snd (download_file example_stdlib
      (example_outside (Inl (RequestException ''timeout'')) (Inr (example_response 200 [])))
      ''http://x/a/b.PNG'' ''/tmp/'' (Some 0) example_world))) =
     [[(''User-Agent'', ''curl/8''), (''Authorization'', ''Bearer t'')]]"
proof -
  let ?out = "example_outside (Inl (RequestException ''timeout'')) (Inr (example_response 200 []))"
  let ?w1 = "snd (os_makedirs ?out ''/tmp/'' example_world)"
  let ?url = "''http://x/a/b.PNG''"
  have valid: "valid_ref (Some 0) example_world"
    by (simp add: valid_ref_def example_world_def)
  have custom: "caller_headers (Some 0) example_world =
      [(''User-Agent'', ''curl/8''), (''Authorization'', ''Bearer t'')]"
    by (simp add: caller_headers_def example_world_def)
  have wf: "well_formed_dict (caller_headers (Some 0) example_world)"
    by (simp add: custom well_formed_dict_def)
  have mk: "os_makedirs ?out ''/tmp/'' example_world = (Inr (), ?w1)"
    by (rule example_makedirs)
  have ge: "get_extension_from_url example_stdlib ?out
      (rewrite_url (environ example_world) ?url) ?w1 = (Inr ''.png'', ?w1)"
    by (simp only: example_environ example_rewrite_png example_resolve_png)
  have merged: "update_items default_headers
      [(''User-Agent'', ''curl/8''), (''Authorization'', ''Bearer t'')] =
      [(''User-Agent'', ''curl/8''), (''Authorization'', ''Bearer t'')]"
    by (simp add: update_items_def default_headers_def)
  from default_headers_merged_with_custom [OF valid wf mk ge] valid wf
  show ?thesis by (simp add: custom merged)
qed

subsection \<open>The status of the GET response\<close>






end
